theory Spec2Isabelle
  imports Complex_Main
begin

section \<open>Request metrics of the HTTP service (app.js)\<close>

text \<open>
  The service registers three series in one registry (a duration histogram, a
  total-request counter and a server-error counter), updates them from a middleware
  when a response finishes, and serves the registry's snapshot at \<open>/metrics\<close>.

  Numbers. JavaScript numbers are IEEE doubles. Counts are modelled as \<open>nat\<close> (exact
  below \<open>2^53\<close>), clock readings as \<open>int\<close> (\<open>Date.now()\<close> is a whole number of
  milliseconds), and durations, bucket bounds and sums as \<open>rat\<close>: the quotient
  \<open>k / 1000\<close> is the exact value the double division rounds, and rounding is monotone,
  so comparing a duration with a bucket bound gives the same answer in both.
\<close>

subsection \<open>Label combinations\<close>

text \<open>The label names are \<open>method\<close>, \<open>route\<close> and \<open>status_code\<close> (app.js, lines 20, 28
  and 35); the first is the field \<open>http_method\<close> here.\<close>

record labels =
  http_method :: string
  route :: string
  status_code :: string

text \<open>What the finish callback reads of the request: \<open>req.method\<close>, \<open>req.path\<close> and
  \<open>req.route\<close>, which the router sets to the matched route (whose \<open>path\<close> is the
  pattern) and leaves undefined when no route matched.\<close>

record request =
  req_method :: string
  req_path :: string
  req_route :: "string option"

text \<open>\<open>res.statusCode.toString()\<close>: the decimal digits of the status code.\<close>

definition digit :: "nat \<Rightarrow> char" where
  "digit d = char_of (48 + d)"

fun toString :: "nat \<Rightarrow> string" where
  "toString n = (if n < 10 then [digit n] else toString (n div 10) @ [digit (n mod 10)])"

declare toString.simps [simp del]

subsection \<open>The series of the registry\<close>

text \<open>
  Modelled from the spec: the metrics library (\<open>prom-client\<close>: \<open>Counter\<close>, \<open>Histogram\<close>,
  \<open>Registry\<close>) is a dependency and not part of the sources. Section 3 of the spec gives
  its data: a counter is an integer count per label combination; a histogram has, per
  label combination, cumulative counts for a fixed list of bucket upper bounds, a running
  sum and a total observation count. Entries are created on first observation. Each
  series is an association list in creation order.
\<close>

record hist_entry =
  bucket_counts :: "nat list"
  running_sum :: rat
  total_count :: nat

type_synonym counter = "(labels \<times> nat) list"
type_synonym histogram = "(labels \<times> hist_entry) list"

text \<open>\<open>buckets: [0.1, 0.3, 0.5, 0.7, 1, 3, 5, 7, 10]\<close> (app.js, line 21).\<close>

definition buckets :: "rat list" where
  "buckets = [1/10, 3/10, 1/2, 7/10, 1, 3, 5, 7, 10]"

text \<open>Modelled from the spec: the entry of a label combination is created lazily, at
  the end of the series, and updated in place afterwards.\<close>

fun update_entry :: "'k \<Rightarrow> 'v \<Rightarrow> ('v \<Rightarrow> 'v) \<Rightarrow> ('k \<times> 'v) list \<Rightarrow> ('k \<times> 'v) list" where
  "update_entry k v0 f [] = [(k, f v0)]"
| "update_entry k v0 f (p # ps) =
     (if fst p = k then (k, f (snd p)) # ps else p # update_entry k v0 f ps)"

text \<open>Modelled from the spec: \<open>Counter.inc(labels)\<close> adds one to the count of the label
  combination.\<close>

definition inc :: "labels \<Rightarrow> counter \<Rightarrow> counter" where
  "inc l c = update_entry l 0 Suc c"

text \<open>Modelled from the spec: \<open>Histogram.observe(labels, value)\<close>. "Observation means:
  increment the cumulative count of every bucket whose upper bound \<ge> duration, increment
  total count, add duration to running sum."\<close>

definition empty_entry :: hist_entry where
  "empty_entry = \<lparr>bucket_counts = map (\<lambda>b. 0) buckets, running_sum = 0, total_count = 0\<rparr>"

definition observe_value :: "rat \<Rightarrow> hist_entry \<Rightarrow> hist_entry" where
  "observe_value v e =
     \<lparr>bucket_counts = map2 (\<lambda>b c. if v \<le> b then c + 1 else c) buckets (bucket_counts e),
      running_sum = running_sum e + v,
      total_count = total_count e + 1\<rparr>"

definition observe :: "labels \<Rightarrow> rat \<Rightarrow> histogram \<Rightarrow> histogram" where
  "observe l v h = update_entry l empty_entry (observe_value v) h"

text \<open>Reading a series at a label combination; a combination never observed has no
  entry, which counts as zero.\<close>

definition counter_value :: "counter \<Rightarrow> labels \<Rightarrow> nat" where
  "counter_value c l = (case map_of c l of None \<Rightarrow> 0 | Some n \<Rightarrow> n)"

definition hist_value :: "histogram \<Rightarrow> labels \<Rightarrow> hist_entry" where
  "hist_value h l = (case map_of h l of None \<Rightarrow> empty_entry | Some e \<Rightarrow> e)"

subsection \<open>The registry and its snapshot\<close>

text \<open>
  Modelled from the spec: \<open>register.metrics()\<close> of the absent library. Section 6 gives
  the exposition format: per series a type line and one data line
  \<open>metric_name{label="value",...} numeric_value\<close> per label combination; a histogram has
  one \<open>_bucket\<close> line per upper bound, carrying the bound as label \<open>le\<close>, and a \<open>_sum\<close>
  and a \<open>_count\<close> line. A data line is modelled by its parts (name, \<open>le\<close>, labels,
  value), a series by its name, its type and its data lines; writing the parts out as
  characters is left to the library.
\<close>

datatype sample = Sample (sample_name: string) (sample_le: "rat option")
  (sample_labels: labels) (sample_value: rat)

datatype series = Series (series_name: string) (series_type: string)
  (series_samples: "sample list")

text \<open>
  The registry (app.js, lines 11 to 37): the names of the default process metrics
  that \<open>collectDefaultMetrics\<close> registers, followed by the three series of the
  application in the order of their registration. \<open>contentType\<close> is
  \<open>register.contentType\<close>.
\<close>

record registry =
  contentType :: string
  defaultMetrics :: "string list"
  httpRequestDurationMicroseconds :: histogram
  httpRequestsTotal :: counter
  httpErrorsTotal :: counter

definition new_registry :: "string \<Rightarrow> string list \<Rightarrow> registry" where
  "new_registry ct dm =
     \<lparr>contentType = ct, defaultMetrics = dm, httpRequestDurationMicroseconds = [],
      httpRequestsTotal = [], httpErrorsTotal = []\<rparr>"

definition counter_samples :: "string \<Rightarrow> counter \<Rightarrow> sample list" where
  "counter_samples name c = map (\<lambda>p. Sample name None (fst p) (of_nat (snd p))) c"

definition entry_samples :: "string \<Rightarrow> labels \<times> hist_entry \<Rightarrow> sample list" where
  "entry_samples name p =
     map2 (\<lambda>b c. Sample (name @ ''_bucket'') (Some b) (fst p) (of_nat c))
       buckets (bucket_counts (snd p))
     @ [Sample (name @ ''_sum'') None (fst p) (running_sum (snd p)),
        Sample (name @ ''_count'') None (fst p) (of_nat (total_count (snd p)))]"

definition histogram_samples :: "string \<Rightarrow> histogram \<Rightarrow> sample list" where
  "histogram_samples name h = concat (map (entry_samples name) h)"

text \<open>
  Modelled from the spec: the default process metrics (memory, uptime, handle counts)
  are an environment-sourced set of series whose computation is not modelled and which
  the snapshot only has to merge in. Their values are those of the process at the
  moment of the export: the environment gives, for the name of a default series, its
  lines as they stand then.
\<close>

type_synonym environment = "string \<Rightarrow> string list"

record snapshot =
  process_lines :: "string list"
  app_series :: "series list"

definition metrics :: "environment \<Rightarrow> registry \<Rightarrow> snapshot" where
  "metrics env reg =
     \<lparr>process_lines = concat (map env (defaultMetrics reg)),
      app_series =
        [Series ''http_request_duration_seconds'' ''histogram''
           (histogram_samples ''http_request_duration_seconds''
              (httpRequestDurationMicroseconds reg)),
         Series ''http_requests_total'' ''counter''
           (counter_samples ''http_requests_total'' (httpRequestsTotal reg)),
         Series ''http_errors_total'' ''counter''
           (counter_samples ''http_errors_total'' (httpErrorsTotal reg))]\<rparr>"






subsection \<open>The middleware (app.js, lines 40 to 62)\<close>

text \<open>
  \<open>Date.now()\<close> reads the clock in whole milliseconds: at the instant \<open>t\<close> (in
  milliseconds since the epoch) it returns the integral part of \<open>t\<close>.
\<close>

definition Date_now :: "rat \<Rightarrow> int" where
  "Date_now t = \<lfloor>t\<rfloor>"

text \<open>
  The callback of \<open>res.on('finish', ...)\<close>. \<open>start\<close> is the clock reading taken when
  the request arrived, \<open>now\<close> the reading when the response finished, \<open>statusCode\<close> is
  \<open>res.statusCode\<close>.
\<close>

definition on_finish :: "int \<Rightarrow> request \<Rightarrow> nat \<Rightarrow> int \<Rightarrow> registry \<Rightarrow> registry" where
  "on_finish start req statusCode now reg =
     (let duration = of_int (now - start) / 1000;
          route = (case req_route req of Some path \<Rightarrow> path | None \<Rightarrow> req_path req);
          status = toString statusCode;
          l = \<lparr>http_method = req_method req, route = route, status_code = status\<rparr>;
          reg1 = reg\<lparr>httpRequestDurationMicroseconds :=
                   observe l duration (httpRequestDurationMicroseconds reg)\<rparr>;
          reg2 = reg1\<lparr>httpRequestsTotal := inc l (httpRequestsTotal reg1)\<rparr>
      in if statusCode \<ge> 500
         then reg2\<lparr>httpErrorsTotal := inc l (httpErrorsTotal reg2)\<rparr>
         else reg2)"

text \<open>A completed request: both clock readings, the request and the final status.\<close>

record completed =
  c_start :: int
  c_req :: request
  c_status :: nat
  c_now :: int

definition finish :: "registry \<Rightarrow> completed \<Rightarrow> registry" where
  "finish reg c = on_finish (c_start c) (c_req c) (c_status c) (c_now c) reg"

definition finish_all :: "completed list \<Rightarrow> registry \<Rightarrow> registry" where
  "finish_all cs reg = foldl finish reg cs"

text \<open>The labels and the duration the callback computes, named for the statements
  below.\<close>

definition route_of :: "request \<Rightarrow> string" where
  "route_of req = (case req_route req of Some path \<Rightarrow> path | None \<Rightarrow> req_path req)"

definition labels_of :: "completed \<Rightarrow> labels" where
  "labels_of c =
     \<lparr>http_method = req_method (c_req c), route = route_of (c_req c),
      status_code = toString (c_status c)\<rparr>"

definition duration_of :: "completed \<Rightarrow> rat" where
  "duration_of c = of_int (c_now c - c_start c) / 1000"

subsection \<open>The metrics endpoint (app.js, lines 83 to 90)\<close>

text \<open>
  A value of the runtime that a promise is rejected with or that is handed to
  \<open>res.end\<close>: a string, or an \<open>Error\<close> object with its message.
\<close>

datatype js_value = Str string | ErrorObject string

datatype js_error = ERR_INVALID_ARG_TYPE

datatype body = Empty | Snapshot snapshot | Raw string

record response =
  res_statusCode :: nat
  res_contentType :: "string option"
  res_body :: body

text \<open>A fresh response: status 200, no header, nothing written.\<close>

definition new_response :: response where
  "new_response = \<lparr>res_statusCode = 200, res_contentType = None, res_body = Empty\<rparr>"

text \<open>
  \<open>res.end(chunk)\<close> of the runtime: the chunk has to be a string (or a buffer); for
  any other value it throws \<open>ERR_INVALID_ARG_TYPE\<close> and nothing is sent.
\<close>

definition res_end :: "response \<Rightarrow> js_value \<Rightarrow> js_error + response" where
  "res_end res chunk =
     (case chunk of
        Str s \<Rightarrow> Inr (res\<lparr>res_body := Raw s\<rparr>)
      | ErrorObject message \<Rightarrow> Inl ERR_INVALID_ARG_TYPE)"

text \<open>
  The handler. \<open>outcome\<close> is how the promise of \<open>register.metrics()\<close> settled:
  resolved with the snapshot (\<open>Inr\<close>), or rejected with a value (\<open>Inl\<close>); when the
  library rejects is not in the sources. The body of the answer is the snapshot (its
  text is \<open>exposition fmt\<close> of it). The header is set before the snapshot is awaited,
  so it is still set in the \<open>catch\<close> branch, which sets the status and hands the value
  it caught to \<open>res.end\<close>. An exception thrown there leaves the handler (\<open>Inl\<close>).
  \<open>console\<close> is what the process has logged so far; the handler calls no logging
  function.
\<close>

definition metrics_handler ::
  "js_value + snapshot \<Rightarrow> registry \<Rightarrow> string list
     \<Rightarrow> (js_error + response) \<times> string list" where
  "metrics_handler outcome reg console =
     (let res = new_response\<lparr>res_contentType := Some (contentType reg)\<rparr>
      in case outcome of
           Inr text \<Rightarrow> (Inr (res\<lparr>res_body := Snapshot text\<rparr>), console)
         | Inl err \<Rightarrow> (res_end (res\<lparr>res_statusCode := 500\<rparr>) err, console))"

text \<open>
  A scrape: the middleware is installed with \<open>app.use\<close> before every route, so a
  request to \<open>/metrics\<close> passes through it: the handler answers from the registry as it
  is, and the finish callback then records the scrape itself, under the status of the
  answer. When the handler throws there is no answer of the handler (\<open>None\<close>): app.js
  installs no error handler, and what the framework does with the request is not in
  the sources.
\<close>

definition get_metrics ::
  "int \<Rightarrow> request \<Rightarrow> js_value + snapshot \<Rightarrow> int \<Rightarrow> registry
     \<Rightarrow> (response \<times> registry) option" where
  "get_metrics start req outcome now reg =
     (case fst (metrics_handler outcome reg []) of
        Inr res \<Rightarrow> Some (res, on_finish start req (res_statusCode res) now reg)
      | Inl e \<Rightarrow> None)"

text \<open>The operations on the registry that the application performs: the finish
  callback of a request and the export, which reads the registry.\<close>

datatype operation = Finish completed | Export

fun apply_op :: "registry \<Rightarrow> operation \<Rightarrow> registry" where
  "apply_op reg (Finish c) = finish reg c"
| "apply_op reg Export = reg"

definition run :: "operation list \<Rightarrow> registry \<Rightarrow> registry" where
  "run ops reg = foldl apply_op reg ops"

subsection \<open>Example traffic\<close>

text \<open>The scenario of section 8 of the spec: three requests to \<open>GET /api/status\<close>
  (all 200), then one to \<open>GET /api/error-test\<close> (500); the statuses are those of the
  two handlers (app.js, lines 101 to 116). A request to a registered pattern has that
  pattern as its route.\<close>

definition get_request :: "string \<Rightarrow> request" where
  "get_request path = \<lparr>req_method = ''GET'', req_path = path, req_route = Some path\<rparr>"

definition status_ok :: completed where
  "status_ok = \<lparr>c_start = 1000, c_req = get_request ''/api/status'', c_status = 200,
     c_now = 1002\<rparr>"

definition error_test :: completed where
  "error_test = \<lparr>c_start = 2000, c_req = get_request ''/api/error-test'', c_status = 500,
     c_now = 2350\<rparr>"

definition scenario :: "completed list" where
  "scenario = [status_ok, status_ok, status_ok, error_test]"

subsection \<open>Well-formed histogram entries\<close>

text \<open>The shape every entry of the histogram keeps: one count per bucket bound, counts
  that do not decrease along the bounds, and none above the total count.\<close>

definition entry_ok :: "hist_entry \<Rightarrow> bool" where
  "entry_ok e =
     (length (bucket_counts e) = length buckets \<and> sorted (bucket_counts e)
      \<and> list_all (\<lambda>c. c \<le> total_count e) (bucket_counts e))"

section \<open>Properties\<close>

subsection \<open>Series as association lists\<close>

lemma map_of_update_entry:
  "map_of (update_entry k v0 f xs) k' =
     (if k' = k then Some (f (case map_of xs k of None \<Rightarrow> v0 | Some v \<Rightarrow> v))
      else map_of xs k')"
  by (induction xs) auto

lemma keys_update_entry:
  "map fst (update_entry k v0 f xs) =
     (if k \<in> fst ` set xs then map fst xs else map fst xs @ [k])"
  by (induction xs) auto

lemma distinct_update_entry:
  "distinct (map fst xs) \<Longrightarrow> distinct (map fst (update_entry k v0 f xs))"
  by (simp add: keys_update_entry)

lemma counter_value_inc:
  "counter_value (inc l c) l' = counter_value c l' + (if l' = l then 1 else 0)"
  by (simp add: counter_value_def inc_def map_of_update_entry split: option.splits)

lemma hist_value_observe:
  "hist_value (observe l v h) l' =
     (if l' = l then observe_value v (hist_value h l) else hist_value h l')"
  by (simp add: hist_value_def observe_def map_of_update_entry split: option.splits)

subsection \<open>What one finish callback does to each series\<close>

lemma finish_requests:
  "httpRequestsTotal (finish reg c) = inc (labels_of c) (httpRequestsTotal reg)"
  by (simp add: finish_def on_finish_def labels_of_def route_of_def Let_def)

lemma finish_errors:
  "httpErrorsTotal (finish reg c) =
     (if c_status c \<ge> 500 then inc (labels_of c) (httpErrorsTotal reg)
      else httpErrorsTotal reg)"
  by (simp add: finish_def on_finish_def labels_of_def route_of_def Let_def)

lemma finish_histogram:
  "httpRequestDurationMicroseconds (finish reg c) =
     observe (labels_of c) (duration_of c) (httpRequestDurationMicroseconds reg)"
  by (simp add: finish_def on_finish_def labels_of_def route_of_def duration_of_def Let_def)

lemma finish_frame:
  "contentType (finish reg c) = contentType reg"
  "defaultMetrics (finish reg c) = defaultMetrics reg"
  by (simp_all add: finish_def on_finish_def Let_def)

lemma finish_all_Nil: "finish_all [] reg = reg"
  by (simp add: finish_all_def)

lemma finish_all_Cons: "finish_all (c # cs) reg = finish_all cs (finish reg c)"
  by (simp add: finish_all_def)

lemma finish_all_snoc: "finish_all (cs @ [c]) reg = finish (finish_all cs reg) c"
  by (simp add: finish_all_def)

subsection \<open>Status codes as strings\<close>

lemma toString_nonempty: "toString n \<noteq> []"
  by (subst toString.simps) simp

lemma digit_inj: "a < 10 \<Longrightarrow> b < 10 \<Longrightarrow> digit a = digit b \<Longrightarrow> a = b"
proof -
  assume a: "a < 10" and b: "b < 10" and eq: "digit a = digit b"
  from eq have "(of_char (char_of (48 + a)) :: nat) = of_char (char_of (48 + b))"
    by (simp add: digit_def)
  then have "(48 + a) mod 256 = (48 + b) mod 256"
    by (simp only: of_char_of)
  with a b show "a = b" by simp
qed

text \<open>Different status codes give different labels.\<close>

lemma toString_inj: "toString n = toString m \<Longrightarrow> n = m"
proof (induction n arbitrary: m rule: toString.induct)
  case (1 n)
  show ?case
  proof (cases "n < 10")
    case True
    show ?thesis
    proof (cases "m < 10")
      case mlt: True
      from "1.prems" True mlt have "digit n = digit m"
        by (simp add: toString.simps [of n] toString.simps [of m])
      with True mlt show ?thesis by (rule digit_inj)
    next
      case False
      with "1.prems" True show ?thesis
        by (simp add: toString.simps [of n] toString.simps [of m]
            toString_nonempty toString_nonempty [symmetric])
    qed
  next
    case False
    show ?thesis
    proof (cases "m < 10")
      case True
      with "1.prems" False show ?thesis
        by (simp add: toString.simps [of n] toString.simps [of m]
            toString_nonempty toString_nonempty [symmetric])
    next
      case mge: False
      from "1.prems" False mge
      have eq: "toString (n div 10) = toString (m div 10)"
        and d: "digit (n mod 10) = digit (m mod 10)"
        by (simp_all add: toString.simps [of n] toString.simps [of m])
      from "1.IH" [OF False eq] have "n div 10 = m div 10" .
      moreover from d have "n mod 10 = m mod 10" by (intro digit_inj) simp_all
      ultimately show ?thesis by (metis div_mult_mod_eq)
    qed
  qed
qed

lemma toString_200: "toString 200 = ''200''"
  by code_simp

lemma toString_500: "toString 500 = ''500''"
  by code_simp

lemma toString_404: "toString 404 = ''404''"
  by code_simp

subsection \<open>The total-request counter\<close>

lemma requests_finish_all:
  "counter_value (httpRequestsTotal (finish_all cs reg)) l =
     counter_value (httpRequestsTotal reg) l + length (filter (\<lambda>c. labels_of c = l) cs)"
  by (induction cs arbitrary: reg)
     (auto simp: finish_all_Nil finish_all_Cons finish_requests counter_value_inc)

text \<open>
  C1. Starting from the fresh registry, after any sequence of completed requests the
  total-request counter of \<open>{method, route, status_code}\<close> is the number of requests
  of the sequence with that method, route label and final status; so after \<open>N\<close>
  requests that all have them it is exactly \<open>N\<close>.
\<close>

theorem http_requests_total_counts:
  "counter_value (httpRequestsTotal (finish_all cs (new_registry ct dm)))
       \<lparr>http_method = m, route = r, status_code = toString sc\<rparr>
     = length (filter (\<lambda>c. req_method (c_req c) = m \<and> route_of (c_req c) = r
                             \<and> c_status c = sc) cs)
   \<and> ((\<forall>c \<in> set cs. req_method (c_req c) = m \<and> route_of (c_req c) = r
                       \<and> c_status c = sc) \<longrightarrow>
        counter_value (httpRequestsTotal (finish_all cs (new_registry ct dm)))
          \<lparr>http_method = m, route = r, status_code = toString sc\<rparr> = length cs)"
proof -
  let ?l = "\<lparr>http_method = m, route = r, status_code = toString sc\<rparr>"
  let ?P = "\<lambda>c. req_method (c_req c) = m \<and> route_of (c_req c) = r \<and> c_status c = sc"
  have same: "(labels_of c = ?l) = ?P c" for c
    by (auto simp: labels_of_def dest: toString_inj)
  have "counter_value (httpRequestsTotal (new_registry ct dm)) ?l = 0"
    by (simp add: new_registry_def counter_value_def)
  then have general:
    "counter_value (httpRequestsTotal (finish_all cs (new_registry ct dm))) ?l
       = length (filter ?P cs)"
    by (simp add: requests_finish_all same)
  moreover have "(\<forall>c \<in> set cs. ?P c) \<longrightarrow> length (filter ?P cs) = length cs"
    by simp
  ultimately show ?thesis by simp
qed

text \<open>The scenario: three requests to \<open>/api/status\<close> alone give 3; in the whole
  scenario the counter of \<open>/api/status\<close> is 3 and that of \<open>/api/error-test\<close> is 1.\<close>

theorem http_requests_total_counts_witness:
  "list_all (\<lambda>c. req_method (c_req c) = ''GET'' \<and> route_of (c_req c) = ''/api/status''
                  \<and> c_status c = 200) [status_ok, status_ok, status_ok]
   \<and> counter_value
       (httpRequestsTotal (finish_all [status_ok, status_ok, status_ok] (new_registry [] [])))
       \<lparr>http_method = ''GET'', route = ''/api/status'', status_code = ''200''\<rparr> = 3
   \<and> counter_value (httpRequestsTotal (finish_all scenario (new_registry [] [])))
       \<lparr>http_method = ''GET'', route = ''/api/status'', status_code = ''200''\<rparr> = 3
   \<and> counter_value (httpRequestsTotal (finish_all scenario (new_registry [] [])))
       \<lparr>http_method = ''GET'', route = ''/api/error-test'', status_code = ''500''\<rparr> = 1"
  using http_requests_total_counts
          [of "[status_ok, status_ok, status_ok]" "[]" "[]" "''GET''" "''/api/status''" 200]
        http_requests_total_counts [of scenario "[]" "[]" "''GET''" "''/api/status''" 200]
        http_requests_total_counts [of scenario "[]" "[]" "''GET''" "''/api/error-test''" 500]
  by (simp add: scenario_def status_ok_def error_test_def get_request_def route_of_def
        toString_200 toString_500)

lemma on_finish_finish:
  "on_finish start req sc now reg =
     finish reg \<lparr>c_start = start, c_req = req, c_status = sc, c_now = now\<rparr>"
  by (simp add: finish_def)

subsection \<open>The histogram invariant\<close>

lemma sorted_buckets: "sorted_wrt (<) buckets"
  by (simp add: buckets_def)

lemma bump_sorted:
  assumes "sorted bs" "sorted cs" "length bs = length cs"
  shows "sorted (map2 (\<lambda>b c. if v \<le> b then c + 1 else c) bs (cs :: nat list))"
proof (unfold sorted_iff_nth_mono, intro allI impI)
  fix i j
  assume ij: "i \<le> j" and j: "j < length (map2 (\<lambda>b c. if v \<le> b then c + 1 else c) bs cs)"
  from j assms have jl: "j < length bs" "j < length cs" by simp_all
  with ij have il: "i < length bs" "i < length cs" by simp_all
  from assms(1) ij jl have b: "bs ! i \<le> bs ! j" by (simp add: sorted_iff_nth_mono)
  from assms(2) ij jl have c: "cs ! i \<le> cs ! j" by (simp add: sorted_iff_nth_mono)
  from il jl b c
  show "map2 (\<lambda>b c. if v \<le> b then c + 1 else c) bs cs ! i
          \<le> map2 (\<lambda>b c. if v \<le> b then c + 1 else c) bs cs ! j"
    by auto
qed

lemma entry_ok_empty: "entry_ok empty_entry"
  by (simp add: entry_ok_def empty_entry_def list_all_iff buckets_def)

lemma entry_ok_observe:
  assumes "entry_ok e"
  shows "entry_ok (observe_value v e)"
proof -
  from assms have len: "length (bucket_counts e) = length buckets"
    and srt: "sorted (bucket_counts e)"
    and le: "\<And>c. c \<in> set (bucket_counts e) \<Longrightarrow> c \<le> total_count e"
    by (simp_all add: entry_ok_def list_all_iff)
  have "sorted buckets"
    using sorted_buckets by (rule strict_sorted_imp_sorted)
  with srt len have "sorted (bucket_counts (observe_value v e))"
    by (simp add: observe_value_def bump_sorted)
  moreover have "c \<le> total_count (observe_value v e)"
    if "c \<in> set (bucket_counts (observe_value v e))" for c
  proof -
    from that obtain b c0 where "c0 \<in> set (bucket_counts e)" "c = (if v \<le> b then c0 + 1 else c0)"
      by (auto simp: observe_value_def dest: set_zip_rightD)
    with le [of c0] show ?thesis by (simp add: observe_value_def)
  qed
  ultimately show ?thesis
    using len by (simp add: entry_ok_def list_all_iff observe_value_def)
qed

lemma update_entry_list_all:
  "list_all (\<lambda>p. P (snd p)) xs \<Longrightarrow> (\<And>v. P v \<Longrightarrow> P (f v)) \<Longrightarrow> P v0 \<Longrightarrow>
   list_all (\<lambda>p. P (snd p)) (update_entry k v0 f xs)"
  by (induction xs) auto

lemma observe_entries_ok:
  "list_all (\<lambda>p. entry_ok (snd p)) h \<Longrightarrow> list_all (\<lambda>p. entry_ok (snd p)) (observe l v h)"
  unfolding observe_def
  by (rule update_entry_list_all) (simp_all add: entry_ok_observe entry_ok_empty)

lemma finish_all_entries_ok:
  "list_all (\<lambda>p. entry_ok (snd p)) (httpRequestDurationMicroseconds reg) \<Longrightarrow>
   list_all (\<lambda>p. entry_ok (snd p)) (httpRequestDurationMicroseconds (finish_all cs reg))"
  by (induction cs arbitrary: reg)
     (simp_all add: finish_all_Nil finish_all_Cons finish_histogram observe_entries_ok)

lemma reachable_entries_ok:
  "list_all (\<lambda>p. entry_ok (snd p))
     (httpRequestDurationMicroseconds (finish_all cs (new_registry ct dm)))"
  by (rule finish_all_entries_ok) (simp add: new_registry_def)

lemma hist_value_ok:
  "list_all (\<lambda>p. entry_ok (snd p)) h \<Longrightarrow> entry_ok (hist_value h l)"
  by (fastforce simp: hist_value_def entry_ok_empty list_all_iff split: option.splits
           dest: map_of_SomeD)

subsection \<open>The error counter\<close>

text \<open>
  C2. When a request completes, the error counter of its labels grows by exactly one if
  the final status is at least 500; if the status is below 500 the error counter is
  left as it was; the counts of all other label combinations never change.
\<close>

theorem http_errors_total_increment:
  "(500 \<le> sc \<longrightarrow>
      counter_value (httpErrorsTotal (on_finish start req sc now reg))
        \<lparr>http_method = req_method req, route = route_of req, status_code = toString sc\<rparr>
      = counter_value (httpErrorsTotal reg)
          \<lparr>http_method = req_method req, route = route_of req, status_code = toString sc\<rparr> + 1)
   \<and> (sc < 500 \<longrightarrow> httpErrorsTotal (on_finish start req sc now reg) = httpErrorsTotal reg)
   \<and> (\<forall>l. l \<noteq> \<lparr>http_method = req_method req, route = route_of req,
                 status_code = toString sc\<rparr> \<longrightarrow>
          counter_value (httpErrorsTotal (on_finish start req sc now reg)) l
          = counter_value (httpErrorsTotal reg) l)"
  by (simp add: on_finish_finish finish_errors counter_value_inc labels_of_def)

text \<open>\<open>GET /api/error-test\<close> (500) on the fresh registry, and a 404.\<close>

theorem http_errors_total_increment_witness:
  "500 \<le> c_status error_test
   \<and> counter_value
        (httpErrorsTotal (on_finish 2000 (get_request ''/api/error-test'') 500 2350
           (new_registry [] [])))
        \<lparr>http_method = ''GET'', route = ''/api/error-test'', status_code = ''500''\<rparr> = 1
   \<and> (404::nat) < 500
   \<and> httpErrorsTotal (on_finish 0 \<lparr>req_method = ''GET'', req_path = ''/nowhere'',
          req_route = None\<rparr> 404 1 (new_registry [] [])) = []
   \<and> \<lparr>http_method = ''GET'', route = ''/api/status'', status_code = ''200''\<rparr>
       \<noteq> \<lparr>http_method = ''GET'', route = ''/api/error-test'', status_code = ''500''\<rparr>
   \<and> counter_value
        (httpErrorsTotal (on_finish 2000 (get_request ''/api/error-test'') 500 2350
           (new_registry [] [])))
        \<lparr>http_method = ''GET'', route = ''/api/status'', status_code = ''200''\<rparr> = 0"
  using http_errors_total_increment
          [of 500 2000 "get_request ''/api/error-test''" 2350 "new_registry [] []"]
        http_errors_total_increment
          [of 404 0 "\<lparr>req_method = ''GET'', req_path = ''/nowhere'', req_route = None\<rparr>" 1
              "new_registry [] []"]
  by (simp add: error_test_def get_request_def route_of_def toString_500 new_registry_def
        counter_value_def)

subsection \<open>Observing a duration\<close>

lemma observe_value_nth:
  "length (bucket_counts e) = length buckets \<Longrightarrow> i < length buckets \<Longrightarrow>
   bucket_counts (observe_value v e) ! i
     = bucket_counts e ! i + (if v \<le> buckets ! i then 1 else 0)"
  by (simp add: observe_value_def)

text \<open>
  C3. In any registry reached from the fresh one, the finish callback of a request
  observes its duration under the request's labels: the count of every bucket whose
  upper bound is at least the duration grows by one and the other buckets keep theirs,
  the total count grows by one, the duration is added to the running sum, and the
  entries of all other label combinations are unchanged.
\<close>

theorem observe_request_duration:
  "(let reg = finish_all cs (new_registry ct dm);
        l = \<lparr>http_method = req_method req, route = route_of req, status_code = toString sc\<rparr>;
        d = of_int (now - start) / 1000;
        old = hist_value (httpRequestDurationMicroseconds reg) l;
        new = hist_value (httpRequestDurationMicroseconds (on_finish start req sc now reg)) l
    in length (bucket_counts old) = length buckets
     \<and> length (bucket_counts new) = length buckets
     \<and> (\<forall>i < length buckets.
           bucket_counts new ! i = bucket_counts old ! i + (if d \<le> buckets ! i then 1 else 0))
     \<and> total_count new = total_count old + 1
     \<and> running_sum new = running_sum old + d
     \<and> (\<forall>l'. l' \<noteq> l \<longrightarrow>
           hist_value (httpRequestDurationMicroseconds (on_finish start req sc now reg)) l'
           = hist_value (httpRequestDurationMicroseconds reg) l'))"
proof -
  let ?reg = "finish_all cs (new_registry ct dm)"
  let ?l = "\<lparr>http_method = req_method req, route = route_of req, status_code = toString sc\<rparr>"
  let ?d = "of_int (now - start) / 1000 :: rat"
  let ?old = "hist_value (httpRequestDurationMicroseconds ?reg) ?l"
  have h: "httpRequestDurationMicroseconds (on_finish start req sc now ?reg)
             = observe ?l ?d (httpRequestDurationMicroseconds ?reg)"
    by (simp add: on_finish_finish finish_histogram labels_of_def duration_of_def)
  have "entry_ok ?old"
    by (rule hist_value_ok) (rule reachable_entries_ok)
  then have len: "length (bucket_counts ?old) = length buckets"
    by (simp add: entry_ok_def)
  have new: "hist_value (httpRequestDurationMicroseconds (on_finish start req sc now ?reg)) ?l
               = observe_value ?d ?old"
    by (simp add: h hist_value_observe)
  have other: "hist_value (httpRequestDurationMicroseconds (on_finish start req sc now ?reg)) l'
               = hist_value (httpRequestDurationMicroseconds ?reg) l'" if "l' \<noteq> ?l" for l'
    using that by (simp add: h hist_value_observe)
  have "length (bucket_counts (observe_value ?d ?old)) = length buckets"
    using len by (simp add: observe_value_def)
  moreover have "total_count (observe_value ?d ?old) = total_count ?old + 1"
    and "running_sum (observe_value ?d ?old) = running_sum ?old + ?d"
    by (simp_all add: observe_value_def)
  ultimately show ?thesis
    unfolding Let_def new using len other by (simp add: observe_value_nth)
qed

lemma scenario_prefix_histogram:
  "httpRequestDurationMicroseconds (finish_all [status_ok, status_ok, status_ok] (new_registry [] []))
   = [(\<lparr>http_method = ''GET'', route = ''/api/status'', status_code = ''200''\<rparr>,
       \<lparr>bucket_counts = [3, 3, 3, 3, 3, 3, 3, 3, 3], running_sum = 3 / 500, total_count = 3\<rparr>)]"
  by (simp add: finish_all_def finish_def on_finish_def status_ok_def get_request_def
        new_registry_def observe_def observe_value_def empty_entry_def buckets_def
        toString_200 Let_def)

text \<open>A request of 0.35 s after three of 0.002 s: the bucket of bound 0.3 stays at 0,
  the bucket of bound 0.5 goes to 1.\<close>

theorem observe_request_duration_witness:
  "(2::nat) < length buckets \<and> (1::nat) < length buckets
   \<and> \<not> (of_int (2350 - 2000) / 1000 \<le> buckets ! 1)
   \<and> of_int (2350 - 2000) / 1000 \<le> buckets ! 2
   \<and> bucket_counts (hist_value (httpRequestDurationMicroseconds
        (on_finish 2000 (get_request ''/api/error-test'') 500 2350
           (finish_all [status_ok, status_ok, status_ok] (new_registry [] []))))
        \<lparr>http_method = ''GET'', route = ''/api/error-test'', status_code = ''500''\<rparr>) ! 1 = 0
   \<and> bucket_counts (hist_value (httpRequestDurationMicroseconds
        (on_finish 2000 (get_request ''/api/error-test'') 500 2350
           (finish_all [status_ok, status_ok, status_ok] (new_registry [] []))))
        \<lparr>http_method = ''GET'', route = ''/api/error-test'', status_code = ''500''\<rparr>) ! 2 = 1
   \<and> \<lparr>http_method = ''GET'', route = ''/api/status'', status_code = ''200''\<rparr>
        \<noteq> \<lparr>http_method = ''GET'', route = ''/api/error-test'', status_code = ''500''\<rparr>
   \<and> total_count (hist_value (httpRequestDurationMicroseconds
        (on_finish 2000 (get_request ''/api/error-test'') 500 2350
           (finish_all [status_ok, status_ok, status_ok] (new_registry [] []))))
        \<lparr>http_method = ''GET'', route = ''/api/status'', status_code = ''200''\<rparr>) = 3"
  using observe_request_duration
          [of "[status_ok, status_ok, status_ok]" "[]" "[]" "get_request ''/api/error-test''"
              500 2350 2000]
  by (simp add: Let_def scenario_prefix_histogram hist_value_def empty_entry_def buckets_def
        get_request_def route_of_def toString_500)

subsection \<open>The route label\<close>

text \<open>
  C8. The finish callback makes its three updates (the observation in the histogram,
  the increment of the total-request counter and, from status 500 on, the increment of
  the error counter) under one label combination, whose route is the pattern of the
  matched route when the router matched one, and the raw request path when none
  matched; no other label combination is touched.
\<close>

theorem route_label_resolution:
  assumes "req_route req = Some p \<and> r = p \<or> req_route req = None \<and> r = req_path req"
  shows
  "(let l = \<lparr>http_method = req_method req, route = r, status_code = toString sc\<rparr>;
        reg' = on_finish start req sc now reg
    in httpRequestDurationMicroseconds reg'
         = observe l (of_int (now - start) / 1000) (httpRequestDurationMicroseconds reg)
     \<and> httpRequestsTotal reg' = inc l (httpRequestsTotal reg)
     \<and> httpErrorsTotal reg'
         = (if 500 \<le> sc then inc l (httpErrorsTotal reg) else httpErrorsTotal reg)
     \<and> total_count (hist_value (httpRequestDurationMicroseconds reg') l)
         = total_count (hist_value (httpRequestDurationMicroseconds reg) l) + 1
     \<and> counter_value (httpRequestsTotal reg') l = counter_value (httpRequestsTotal reg) l + 1
     \<and> counter_value (httpErrorsTotal reg') l
         = counter_value (httpErrorsTotal reg) l + (if 500 \<le> sc then 1 else 0)
     \<and> (\<forall>l'. l' \<noteq> l \<longrightarrow>
           hist_value (httpRequestDurationMicroseconds reg') l'
             = hist_value (httpRequestDurationMicroseconds reg) l'
           \<and> counter_value (httpRequestsTotal reg') l' = counter_value (httpRequestsTotal reg) l'
           \<and> counter_value (httpErrorsTotal reg') l' = counter_value (httpErrorsTotal reg) l'))"
proof -
  from assms have r: "route_of req = r"
    by (auto simp: route_of_def)
  let ?c = "\<lparr>c_start = start, c_req = req, c_status = sc, c_now = now\<rparr>"
  have l: "labels_of ?c = \<lparr>http_method = req_method req, route = r, status_code = toString sc\<rparr>"
    by (simp add: labels_of_def r)
  have d: "duration_of ?c = of_int (now - start) / 1000"
    by (simp add: duration_of_def)
  show ?thesis
    unfolding Let_def on_finish_finish finish_histogram finish_requests finish_errors l d
    by (simp add: counter_value_inc hist_value_observe observe_value_def)
qed

text \<open>A request of path \<open>/API/status/\<close> matched by the pattern \<open>/api/status\<close>, and
  an unmatched request (404) recorded under its own path.\<close>

theorem route_label_resolution_witness:
  "req_route (get_request ''/api/status'') = Some ''/api/status''
   \<and> httpRequestsTotal (on_finish 0 \<lparr>req_method = ''GET'', req_path = ''/API/status/'',
         req_route = Some ''/api/status''\<rparr> 200 2 (new_registry [] []))
       = [(\<lparr>http_method = ''GET'', route = ''/api/status'', status_code = ''200''\<rparr>, 1)]
   \<and> req_route \<lparr>req_method = ''GET'', req_path = ''/nowhere'', req_route = None\<rparr> = None
   \<and> httpRequestsTotal (on_finish 0 \<lparr>req_method = ''GET'', req_path = ''/nowhere'',
         req_route = None\<rparr> 404 2 (new_registry [] []))
       = [(\<lparr>http_method = ''GET'', route = ''/nowhere'', status_code = ''404''\<rparr>, 1)]"
  using route_label_resolution
          [of "\<lparr>req_method = ''GET'', req_path = ''/API/status/'',
                req_route = Some ''/api/status''\<rparr>" "''/api/status''" "''/api/status''"
              200 0 2 "new_registry [] []"]
        route_label_resolution
          [of "\<lparr>req_method = ''GET'', req_path = ''/nowhere'', req_route = None\<rparr>"
              "''x''" "''/nowhere''" 404 0 2 "new_registry [] []"]
  by (simp add: Let_def get_request_def new_registry_def inc_def toString_200 toString_404)

subsection \<open>Cumulative buckets\<close>

lemma distinct_keys_observe:
  "distinct (map fst h) \<Longrightarrow> distinct (map fst (observe l v h))"
  by (simp add: observe_def distinct_update_entry)

lemma reachable_distinct_keys:
  "distinct (map fst (httpRequestDurationMicroseconds (finish_all cs (new_registry ct dm))))"
proof -
  have "distinct (map fst (httpRequestDurationMicroseconds reg)) \<Longrightarrow>
        distinct (map fst (httpRequestDurationMicroseconds (finish_all cs reg)))" for reg
    by (induction cs arbitrary: reg)
       (simp_all add: finish_all_Nil finish_all_Cons finish_histogram distinct_keys_observe)
  then show ?thesis by (simp add: new_registry_def)
qed

lemma bucket_sample_iff:
  "Sample (name @ ''_bucket'') (Some b) l v \<in> set (entry_samples name p) \<longleftrightarrow>
     fst p = l \<and> (\<exists>c. (b, c) \<in> set (zip buckets (bucket_counts (snd p))) \<and> v = of_nat c)"
  by (auto simp: entry_samples_def set_zip)

lemma count_sample_iff:
  "Sample (name @ ''_count'') None l v \<in> set (entry_samples name p) \<longleftrightarrow>
     fst p = l \<and> v = of_nat (total_count (snd p))"
  by (auto simp: entry_samples_def set_zip)

lemma zip_sorted_mono:
  assumes "sorted_wrt (<) (bs :: rat list)" "sorted cs" "length bs = length cs"
    and "(b1, c1) \<in> set (zip bs cs)" "(b2, c2) \<in> set (zip bs cs)" "b1 \<le> b2"
  shows "c1 \<le> (c2 :: nat)"
proof -
  from assms(4) obtain i where i: "i < length bs" "bs ! i = b1" "cs ! i = c1"
    by (auto simp: set_zip)
  from assms(5) obtain j where j: "j < length bs" "bs ! j = b2" "cs ! j = c2"
    by (auto simp: set_zip)
  have "i \<le> j"
  proof (rule ccontr)
    assume "\<not> i \<le> j"
    then have "j < i" by simp
    with assms(1) i(1) have "bs ! j < bs ! i" by (simp add: sorted_wrt_nth_less)
    with i j assms(6) show False by simp
  qed
  with assms(2,3) j(1) have "cs ! i \<le> cs ! j" by (simp add: sorted_iff_nth_mono)
  with i j show ?thesis by simp
qed

lemma scenario_histogram:
  "httpRequestDurationMicroseconds (finish_all scenario (new_registry [] []))
   = [(\<lparr>http_method = ''GET'', route = ''/api/status'', status_code = ''200''\<rparr>,
       \<lparr>bucket_counts = [3, 3, 3, 3, 3, 3, 3, 3, 3], running_sum = 3 / 500, total_count = 3\<rparr>),
      (\<lparr>http_method = ''GET'', route = ''/api/error-test'', status_code = ''500''\<rparr>,
       \<lparr>bucket_counts = [0, 0, 1, 1, 1, 1, 1, 1, 1], running_sum = 7 / 20, total_count = 1\<rparr>)]"
  by (simp add: scenario_def finish_all_def finish_def on_finish_def status_ok_def
        error_test_def get_request_def new_registry_def observe_def observe_value_def
        empty_entry_def buckets_def toString_200 toString_500 Let_def)

text \<open>
  C4. In the data lines exported for the duration histogram after any sequence of
  completed requests, for a fixed label combination, a bucket with a larger upper bound
  never has a smaller count, and no bucket count exceeds the value of the \<open>_count\<close>
  line. (\<open>histogram_samples\<close> is the list of data lines that \<open>metrics\<close> exports for
  the histogram.)
\<close>

theorem bucket_counts_cumulative:
  "(let exported = set (histogram_samples ''http_request_duration_seconds''
        (httpRequestDurationMicroseconds (finish_all cs (new_registry ct dm))))
    in (\<forall>l b1 v1 b2 v2.
          Sample ''http_request_duration_seconds_bucket'' (Some b1) l v1 \<in> exported
          \<and> Sample ''http_request_duration_seconds_bucket'' (Some b2) l v2 \<in> exported
          \<and> b1 \<le> b2 \<longrightarrow> v1 \<le> v2)
     \<and> (\<forall>l b v n.
          Sample ''http_request_duration_seconds_bucket'' (Some b) l v \<in> exported
          \<and> Sample ''http_request_duration_seconds_count'' None l n \<in> exported
          \<longrightarrow> v \<le> n))"
proof -
  let ?n = "''http_request_duration_seconds''"
  let ?h = "httpRequestDurationMicroseconds (finish_all cs (new_registry ct dm))"
  have ok: "entry_ok e" if "(l, e) \<in> set ?h" for l e
    using reachable_entries_ok [of cs ct dm] that by (auto simp: list_all_iff)
  have same: "e1 = e2" if "(l, e1) \<in> set ?h" "(l, e2) \<in> set ?h" for l e1 e2
    using reachable_distinct_keys [of cs ct dm] that by (rule eq_key_imp_eq_value)
  have bucket: "\<exists>e c. (l, e) \<in> set ?h \<and> (b, c) \<in> set (zip buckets (bucket_counts e))
                  \<and> v = of_nat c"
    if "Sample (?n @ ''_bucket'') (Some b) l v \<in> set (histogram_samples ?n ?h)" for l b v
    using that unfolding histogram_samples_def set_concat
    by (auto simp only: bucket_sample_iff set_map) force
  have count: "\<exists>e. (l, e) \<in> set ?h \<and> n = of_nat (total_count e)"
    if "Sample (?n @ ''_count'') None l n \<in> set (histogram_samples ?n ?h)" for l n
    using that unfolding histogram_samples_def set_concat
    by (auto simp only: count_sample_iff set_map) force
  have mono: "v1 \<le> v2"
    if "Sample (?n @ ''_bucket'') (Some b1) l v1 \<in> set (histogram_samples ?n ?h)"
      and "Sample (?n @ ''_bucket'') (Some b2) l v2 \<in> set (histogram_samples ?n ?h)"
      and "b1 \<le> b2" for l b1 v1 b2 v2
  proof -
    from bucket [OF that(1)] obtain e1 c1 where 1: "(l, e1) \<in> set ?h"
      "(b1, c1) \<in> set (zip buckets (bucket_counts e1))" "v1 = of_nat c1" by blast
    from bucket [OF that(2)] obtain e2 c2 where 2: "(l, e2) \<in> set ?h"
      "(b2, c2) \<in> set (zip buckets (bucket_counts e2))" "v2 = of_nat c2" by blast
    from 1(1) 2(1) have e: "e2 = e1" by (simp add: same)
    from ok [OF 1(1)] have "sorted (bucket_counts e1)"
      "length buckets = length (bucket_counts e1)" by (simp_all add: entry_ok_def)
    with sorted_buckets have "c1 \<le> c2"
      using 1(2) 2(2) that(3) unfolding e by (rule zip_sorted_mono)
    with 1(3) 2(3) show ?thesis by simp
  qed
  have below: "v \<le> n"
    if "Sample (?n @ ''_bucket'') (Some b) l v \<in> set (histogram_samples ?n ?h)"
      and "Sample (?n @ ''_count'') None l n \<in> set (histogram_samples ?n ?h)" for l b v n
  proof -
    from bucket [OF that(1)] obtain e1 c1 where 1: "(l, e1) \<in> set ?h"
      "(b, c1) \<in> set (zip buckets (bucket_counts e1))" "v = of_nat c1" by blast
    from count [OF that(2)] obtain e2 where 2: "(l, e2) \<in> set ?h"
      "n = of_nat (total_count e2)" by blast
    from 1(1) 2(1) have e: "e2 = e1" by (simp add: same)
    from 1(2) have "c1 \<in> set (bucket_counts e1)" by (rule set_zip_rightD)
    with ok [OF 1(1)] have "c1 \<le> total_count e1" by (simp add: entry_ok_def list_all_iff)
    with 1(3) 2(2) e show ?thesis by simp
  qed
  show ?thesis
    unfolding Let_def using mono below by simp blast
qed

text \<open>The scenario's lines for \<open>/api/error-test\<close>: bound 0.3 has count 0, bound 0.5
  has count 1, and \<open>_count\<close> is 1.\<close>

theorem bucket_counts_cumulative_witness:
  "Sample ''http_request_duration_seconds_bucket'' (Some (3 / 10))
       \<lparr>http_method = ''GET'', route = ''/api/error-test'', status_code = ''500''\<rparr> 0
     \<in> set (histogram_samples ''http_request_duration_seconds''
          (httpRequestDurationMicroseconds (finish_all scenario (new_registry [] []))))
   \<and> Sample ''http_request_duration_seconds_bucket'' (Some (1 / 2))
       \<lparr>http_method = ''GET'', route = ''/api/error-test'', status_code = ''500''\<rparr> 1
     \<in> set (histogram_samples ''http_request_duration_seconds''
          (httpRequestDurationMicroseconds (finish_all scenario (new_registry [] []))))
   \<and> Sample ''http_request_duration_seconds_count'' None
       \<lparr>http_method = ''GET'', route = ''/api/error-test'', status_code = ''500''\<rparr> 1
     \<in> set (histogram_samples ''http_request_duration_seconds''
          (httpRequestDurationMicroseconds (finish_all scenario (new_registry [] []))))
   \<and> (3 / 10 :: rat) \<le> 1 / 2 \<and> (0 :: rat) \<le> 1"
  using bucket_counts_cumulative [of scenario "[]" "[]"]
  by (simp add: scenario_histogram histogram_samples_def entry_samples_def buckets_def)

subsection \<open>Growth of the registry\<close>

lemma keys_update_entry_mono: "set (map fst xs) \<subseteq> set (map fst (update_entry k v0 f xs))"
  by (auto simp: keys_update_entry)

lemma key_kept: "(k', v) \<in> set xs \<Longrightarrow> k' \<in> fst ` set (update_entry k v0 f xs)"
  using keys_update_entry_mono [of xs k v0 f] by force

lemma run_Nil: "run [] reg = reg"
  by (simp add: run_def)

lemma run_Cons: "run (x # xs) reg = run xs (apply_op reg x)"
  by (simp add: run_def)

lemma finish_entries_ok:
  "list_all (\<lambda>p. entry_ok (snd p)) (httpRequestDurationMicroseconds reg) \<Longrightarrow>
   list_all (\<lambda>p. entry_ok (snd p)) (httpRequestDurationMicroseconds (finish reg c))"
  by (simp add: finish_histogram observe_entries_ok)

lemma apply_op_entries_ok:
  "list_all (\<lambda>p. entry_ok (snd p)) (httpRequestDurationMicroseconds reg) \<Longrightarrow>
   list_all (\<lambda>p. entry_ok (snd p)) (httpRequestDurationMicroseconds (apply_op reg x))"
  by (cases x) (simp_all add: finish_entries_ok)

lemma run_entries_ok:
  "list_all (\<lambda>p. entry_ok (snd p)) (httpRequestDurationMicroseconds reg) \<Longrightarrow>
   list_all (\<lambda>p. entry_ok (snd p)) (httpRequestDurationMicroseconds (run ops reg))"
  by (induction ops arbitrary: reg) (simp_all add: run_Nil run_Cons apply_op_entries_ok)

text \<open>A reflexive and transitive relation that every finish callback respects on
  well-formed registries holds between a registry and any later one.\<close>

lemma run_preserves:
  assumes refl: "\<And>a. P a a"
    and trans: "\<And>a b c. P a b \<Longrightarrow> P b c \<Longrightarrow> P a c"
    and step: "\<And>a c. list_all (\<lambda>p. entry_ok (snd p)) (httpRequestDurationMicroseconds a)
                 \<Longrightarrow> P a (finish a c)"
    and ok: "list_all (\<lambda>p. entry_ok (snd p)) (httpRequestDurationMicroseconds reg)"
  shows "P reg (run ops reg)"
  using ok
proof (induction ops arbitrary: reg)
  case Nil
  show ?case by (simp add: run_Nil refl)
next
  case (Cons x xs)
  have 1: "P reg (apply_op reg x)"
    using Cons.prems by (cases x) (simp_all add: refl step)
  have "P (apply_op reg x) (run xs (apply_op reg x))"
    by (rule Cons.IH) (rule apply_op_entries_ok [OF Cons.prems])
  with 1 show ?case
    unfolding run_Cons by (rule trans)
qed

lemma observe_value_nth_mono:
  "length (bucket_counts e) = length buckets \<Longrightarrow> i < length buckets \<Longrightarrow>
   bucket_counts e ! i \<le> bucket_counts (observe_value v e) ! i"
  by (simp add: observe_value_nth)

lemma bounds_of_entry:
  assumes "length (bucket_counts (snd p)) = length buckets"
  shows "List.map_filter sample_le (entry_samples name p) = buckets"
proof -
  have "List.map_filter sample_le (map2 (\<lambda>b c. Sample n (Some b) l (of_nat c)) bs cs) = bs"
    if "length bs = length cs" for n l bs and cs :: "nat list"
    using that by (induction bs cs rule: list_induct2) simp_all
  with assms show ?thesis
    by (simp add: entry_samples_def List.map_filter_def)
qed

text \<open>
  C9. Take any registry reached from the fresh one by finish callbacks and exports, and
  any registry reached from it by further ones. Every label combination of each of the
  three series is still there; no counter value, total count or bucket count is smaller
  than before; and every entry of the histogram has one count per bound of the one list
  \<open>buckets\<close> fixed at registration, so that its bucket lines carry exactly these bounds.
  No operation of the sequence resets a series. (\<open>Export\<close> is the call of
  \<open>register.metrics()\<close>, which reads the registry; the finish callback of the scrape
  that carried it is a \<open>Finish\<close> of the sequence.)
\<close>

theorem metrics_append_only:
  "(let reg = run ops (new_registry ct dm); reg' = run ops' reg
    in set (map fst (httpRequestDurationMicroseconds reg))
         \<subseteq> set (map fst (httpRequestDurationMicroseconds reg'))
     \<and> set (map fst (httpRequestsTotal reg)) \<subseteq> set (map fst (httpRequestsTotal reg'))
     \<and> set (map fst (httpErrorsTotal reg)) \<subseteq> set (map fst (httpErrorsTotal reg'))
     \<and> (\<forall>l. counter_value (httpRequestsTotal reg) l \<le> counter_value (httpRequestsTotal reg') l)
     \<and> (\<forall>l. counter_value (httpErrorsTotal reg) l \<le> counter_value (httpErrorsTotal reg') l)
     \<and> (\<forall>l. total_count (hist_value (httpRequestDurationMicroseconds reg) l)
              \<le> total_count (hist_value (httpRequestDurationMicroseconds reg') l))
     \<and> (\<forall>l. \<forall>i < length buckets.
            bucket_counts (hist_value (httpRequestDurationMicroseconds reg) l) ! i
              \<le> bucket_counts (hist_value (httpRequestDurationMicroseconds reg') l) ! i)
     \<and> (\<forall>p \<in> set (httpRequestDurationMicroseconds reg').
            length (bucket_counts (snd p)) = length buckets
            \<and> List.map_filter sample_le (entry_samples ''http_request_duration_seconds'' p)
                = buckets))"
proof -
  let ?ok = "\<lambda>r. list_all (\<lambda>p. entry_ok (snd p)) (httpRequestDurationMicroseconds r)"
  define reg where "reg = run ops (new_registry ct dm)"
  define reg' where "reg' = run ops' reg"
  have ok: "?ok reg"
    unfolding reg_def by (rule run_entries_ok) (simp add: new_registry_def)
  then have ok': "?ok reg'"
    unfolding reg'_def by (rule run_entries_ok)
  have k1: "set (map fst (httpRequestDurationMicroseconds reg))
              \<subseteq> set (map fst (httpRequestDurationMicroseconds reg'))"
    unfolding reg'_def
    by (rule run_preserves [where P = "\<lambda>a b. set (map fst (httpRequestDurationMicroseconds a))
              \<subseteq> set (map fst (httpRequestDurationMicroseconds b))", OF _ _ _ ok])
       (auto simp: finish_histogram observe_def intro: key_kept)
  have k2: "set (map fst (httpRequestsTotal reg)) \<subseteq> set (map fst (httpRequestsTotal reg'))"
    unfolding reg'_def
    by (rule run_preserves [where P = "\<lambda>a b. set (map fst (httpRequestsTotal a))
              \<subseteq> set (map fst (httpRequestsTotal b))", OF _ _ _ ok])
       (auto simp: finish_requests inc_def intro: key_kept)
  have k3: "set (map fst (httpErrorsTotal reg)) \<subseteq> set (map fst (httpErrorsTotal reg'))"
    unfolding reg'_def
    by (rule run_preserves [where P = "\<lambda>a b. set (map fst (httpErrorsTotal a))
              \<subseteq> set (map fst (httpErrorsTotal b))", OF _ _ _ ok])
       (auto simp: finish_errors inc_def intro: key_kept)
  have c1: "counter_value (httpRequestsTotal reg) l \<le> counter_value (httpRequestsTotal reg') l"
    for l
    unfolding reg'_def
    by (rule run_preserves [where P = "\<lambda>a b. counter_value (httpRequestsTotal a) l
              \<le> counter_value (httpRequestsTotal b) l", OF _ _ _ ok])
       (auto simp: finish_requests counter_value_inc)
  have c2: "counter_value (httpErrorsTotal reg) l \<le> counter_value (httpErrorsTotal reg') l"
    for l
    unfolding reg'_def
    by (rule run_preserves [where P = "\<lambda>a b. counter_value (httpErrorsTotal a) l
              \<le> counter_value (httpErrorsTotal b) l", OF _ _ _ ok])
       (auto simp: finish_errors counter_value_inc)
  have t: "total_count (hist_value (httpRequestDurationMicroseconds reg) l)
             \<le> total_count (hist_value (httpRequestDurationMicroseconds reg') l)" for l
    unfolding reg'_def
    by (rule run_preserves [where P = "\<lambda>a b.
              total_count (hist_value (httpRequestDurationMicroseconds a) l)
              \<le> total_count (hist_value (httpRequestDurationMicroseconds b) l)", OF _ _ _ ok])
       (auto simp: finish_histogram hist_value_observe observe_value_def)
  have b: "bucket_counts (hist_value (httpRequestDurationMicroseconds reg) l) ! i
             \<le> bucket_counts (hist_value (httpRequestDurationMicroseconds reg') l) ! i"
    if i: "i < length buckets" for l i
    unfolding reg'_def
  proof (rule run_preserves [where P = "\<lambda>a b.
              bucket_counts (hist_value (httpRequestDurationMicroseconds a) l) ! i
              \<le> bucket_counts (hist_value (httpRequestDurationMicroseconds b) l) ! i",
            OF _ _ _ ok])
    fix a :: registry and c
    assume a: "?ok a"
    have "entry_ok (hist_value (httpRequestDurationMicroseconds a) (labels_of c))"
      using a by (rule hist_value_ok)
    then have "length (bucket_counts (hist_value (httpRequestDurationMicroseconds a)
                 (labels_of c))) = length buckets"
      by (simp add: entry_ok_def)
    then show "bucket_counts (hist_value (httpRequestDurationMicroseconds a) l) ! i
          \<le> bucket_counts (hist_value (httpRequestDurationMicroseconds (finish a c)) l) ! i"
      using i by (simp add: finish_histogram hist_value_observe observe_value_nth_mono)
  qed simp_all
  have e: "length (bucket_counts (snd p)) = length buckets
           \<and> List.map_filter sample_le (entry_samples ''http_request_duration_seconds'' p)
               = buckets"
    if "p \<in> set (httpRequestDurationMicroseconds reg')" for p
  proof -
    from ok' that have "entry_ok (snd p)" by (simp add: list_all_iff)
    then have "length (bucket_counts (snd p)) = length buckets" by (simp add: entry_ok_def)
    then show ?thesis by (simp add: bounds_of_entry)
  qed
  show ?thesis
    unfolding Let_def reg_def [symmetric] reg'_def [symmetric]
    using k1 k2 k3 c1 c2 t b e by blast
qed

lemma run_example:
  "run [Export, Finish status_ok, Finish error_test] (run [Finish status_ok] (new_registry [] []))
   = \<lparr>contentType = [], defaultMetrics = [],
      httpRequestDurationMicroseconds =
        [(\<lparr>http_method = ''GET'', route = ''/api/status'', status_code = ''200''\<rparr>,
          \<lparr>bucket_counts = [2, 2, 2, 2, 2, 2, 2, 2, 2], running_sum = 1 / 250,
            total_count = 2\<rparr>),
         (\<lparr>http_method = ''GET'', route = ''/api/error-test'', status_code = ''500''\<rparr>,
          \<lparr>bucket_counts = [0, 0, 1, 1, 1, 1, 1, 1, 1], running_sum = 7 / 20,
            total_count = 1\<rparr>)],
      httpRequestsTotal =
        [(\<lparr>http_method = ''GET'', route = ''/api/status'', status_code = ''200''\<rparr>, 2),
         (\<lparr>http_method = ''GET'', route = ''/api/error-test'', status_code = ''500''\<rparr>, 1)],
      httpErrorsTotal =
        [(\<lparr>http_method = ''GET'', route = ''/api/error-test'', status_code = ''500''\<rparr>, 1)]\<rparr>"
  by (simp add: run_def finish_def on_finish_def status_ok_def error_test_def get_request_def
        new_registry_def observe_def observe_value_def inc_def empty_entry_def buckets_def
        toString_200 toString_500 Let_def)

text \<open>One request, then an export and two more requests: the bucket of bound 0.5 of
  \<open>/api/status\<close> goes from 1 to 2, and the new entry of \<open>/api/error-test\<close> has nine
  counts.\<close>

theorem metrics_append_only_witness:
  "(2::nat) < length buckets
   \<and> bucket_counts (hist_value (httpRequestDurationMicroseconds
         (run [Finish status_ok] (new_registry [] [])))
         \<lparr>http_method = ''GET'', route = ''/api/status'', status_code = ''200''\<rparr>) ! 2 = 1
   \<and> bucket_counts (hist_value (httpRequestDurationMicroseconds
         (run [Export, Finish status_ok, Finish error_test]
            (run [Finish status_ok] (new_registry [] []))))
         \<lparr>http_method = ''GET'', route = ''/api/status'', status_code = ''200''\<rparr>) ! 2 = 2
   \<and> (\<lparr>http_method = ''GET'', route = ''/api/error-test'', status_code = ''500''\<rparr>,
       \<lparr>bucket_counts = [0, 0, 1, 1, 1, 1, 1, 1, 1], running_sum = 7 / 20, total_count = 1\<rparr>)
       \<in> set (httpRequestDurationMicroseconds
            (run [Export, Finish status_ok, Finish error_test]
               (run [Finish status_ok] (new_registry [] []))))
   \<and> length [0, 0, 1, 1, 1, 1, 1, 1, 1 :: nat] = length buckets
   \<and> counter_value (httpRequestsTotal (run [Finish status_ok] (new_registry [] [])))
        \<lparr>http_method = ''GET'', route = ''/api/status'', status_code = ''200''\<rparr>
       \<le> counter_value (httpRequestsTotal
            (run [Export, Finish status_ok, Finish error_test]
               (run [Finish status_ok] (new_registry [] []))))
            \<lparr>http_method = ''GET'', route = ''/api/status'', status_code = ''200''\<rparr>"
  using metrics_append_only
          [of "[Finish status_ok]" "[]" "[]" "[Export, Finish status_ok, Finish error_test]"]
  unfolding run_example
  by (simp add: Let_def run_def finish_def on_finish_def status_ok_def get_request_def
        new_registry_def observe_def observe_value_def inc_def empty_entry_def buckets_def
        toString_200 hist_value_def counter_value_def)


subsection \<open>The export\<close>









subsection \<open>The metrics endpoint\<close>



subsection \<open>The recorded duration\<close>

lemma Date_now_examples:
  "Date_now (5001 / 5) = 1000" "Date_now (10009 / 10) = 1000"
  unfolding Date_now_def by (rule floor_unique; simp)+

text \<open>
  C7, as the spec states it: the duration keeps sub-millisecond resolution. It does
  not: both clock readings are whole milliseconds, so a request that arrives at
  1000.2 ms and finishes at 1000.9 ms, 0.0007 s later, is recorded with duration 0.
\<close>

theorem duration_resolution_lost:
  "running_sum (hist_value (httpRequestDurationMicroseconds
       (on_finish (Date_now (5001 / 5)) (get_request ''/api/status'') 200
          (Date_now (10009 / 10)) (new_registry [] [])))
       \<lparr>http_method = ''GET'', route = ''/api/status'', status_code = ''200''\<rparr>) = 0
   \<and> (10009 / 10 - 5001 / 5) / 1000 = (7 / 10000 :: rat)"
  by (simp add: on_finish_def Date_now_examples get_request_def new_registry_def observe_def
        observe_value_def empty_entry_def hist_value_def toString_200 Let_def)

text \<open>
  C7, amended. The duration observed on finish is the difference of the two clock
  readings, in seconds: a whole number of milliseconds divided by 1000.
\<close>

theorem duration_whole_milliseconds:
  "(let l = \<lparr>http_method = req_method req, route = route_of req, status_code = toString sc\<rparr>;
        reg' = on_finish (Date_now t0) req sc (Date_now t1) reg;
        duration = running_sum (hist_value (httpRequestDurationMicroseconds reg') l)
                   - running_sum (hist_value (httpRequestDurationMicroseconds reg) l)
    in duration = of_int (Date_now t1 - Date_now t0) / 1000
     \<and> duration * 1000 = of_int (\<lfloor>t1\<rfloor> - \<lfloor>t0\<rfloor>))"
proof -
  let ?l = "\<lparr>http_method = req_method req, route = route_of req, status_code = toString sc\<rparr>"
  let ?d = "of_int (Date_now t1 - Date_now t0) / 1000 :: rat"
  have "running_sum (hist_value (httpRequestDurationMicroseconds
          (on_finish (Date_now t0) req sc (Date_now t1) reg)) ?l)
        = running_sum (hist_value (httpRequestDurationMicroseconds reg) ?l) + ?d"
    by (simp add: on_finish_finish finish_histogram labels_of_def duration_of_def
          hist_value_observe observe_value_def)
  then have d: "running_sum (hist_value (httpRequestDurationMicroseconds
          (on_finish (Date_now t0) req sc (Date_now t1) reg)) ?l)
        - running_sum (hist_value (httpRequestDurationMicroseconds reg) ?l) = ?d"
    by simp
  have whole: "?d * 1000 = of_int (\<lfloor>t1\<rfloor> - \<lfloor>t0\<rfloor>)"
    by (simp add: Date_now_def)
  then show ?thesis
    unfolding Let_def d by simp
qed

subsection \<open>Scrapes are requests\<close>

lemma counter_samples_inj: "counter_samples name c = counter_samples name c' \<Longrightarrow> c = c'"
proof -
  have "inj (\<lambda>p :: labels \<times> nat. Sample name None (fst p) (of_nat (snd p)))"
    by (auto intro!: injI simp: prod_eq_iff)
  then show "counter_samples name c = counter_samples name c' \<Longrightarrow> c = c'"
    by (simp add: counter_samples_def)
qed

lemma metrics_eq_requests:
  assumes "metrics env a = metrics env' b"
  shows "httpRequestsTotal a = httpRequestsTotal b"
proof -
  from assms have "app_series (metrics env a) = app_series (metrics env' b)" by simp
  then have "counter_samples ''http_requests_total'' (httpRequestsTotal a)
             = counter_samples ''http_requests_total'' (httpRequestsTotal b)"
    by (simp add: metrics_def)
  then show ?thesis by (rule counter_samples_inj)
qed

text \<open>
  C10. A completed \<open>GET /metrics\<close> is recorded by the middleware like any request:
  under the labels of route \<open>/metrics\<close> and of its final status, whatever that is, the
  total-request counter and the histogram's total count grow by one, and the registry
  after the scrape exports another snapshot than before it, whatever the process
  reports for its default metrics. It is the status of the handler's answer that a
  scrape answered by the handler is recorded under. Of two consecutive scrapes whose
  exports resolve, the first answers 200 with the snapshot of the registry as it was,
  and the second returns a body different from the first.
\<close>

theorem scrape_is_instrumented:
  assumes "req_method req = ''GET''" and "req_route req = Some ''/metrics''"
  shows
  "(let reg' = on_finish start req sc now reg;
        l = \<lparr>http_method = ''GET'', route = ''/metrics'', status_code = toString sc\<rparr>
    in counter_value (httpRequestsTotal reg') l = counter_value (httpRequestsTotal reg) l + 1
     \<and> total_count (hist_value (httpRequestDurationMicroseconds reg') l)
         = total_count (hist_value (httpRequestDurationMicroseconds reg) l) + 1
     \<and> (\<forall>env env'. metrics env' reg' \<noteq> metrics env reg))
   \<and> (\<forall>res reg'. get_metrics start req outcome now reg = Some (res, reg') \<longrightarrow>
         reg' = on_finish start req (res_statusCode res) now reg
         \<and> counter_value (httpRequestsTotal reg')
             \<lparr>http_method = ''GET'', route = ''/metrics'',
               status_code = toString (res_statusCode res)\<rparr>
           = counter_value (httpRequestsTotal reg)
             \<lparr>http_method = ''GET'', route = ''/metrics'',
               status_code = toString (res_statusCode res)\<rparr> + 1
         \<and> total_count (hist_value (httpRequestDurationMicroseconds reg')
             \<lparr>http_method = ''GET'', route = ''/metrics'',
               status_code = toString (res_statusCode res)\<rparr>)
           = total_count (hist_value (httpRequestDurationMicroseconds reg)
             \<lparr>http_method = ''GET'', route = ''/metrics'',
               status_code = toString (res_statusCode res)\<rparr>) + 1
         \<and> (\<forall>env env'. metrics env' reg' \<noteq> metrics env reg))
   \<and> (\<forall>env env'. \<exists>res1 reg1 res2 reg2.
         get_metrics start req (Inr (metrics env reg)) now reg = Some (res1, reg1)
         \<and> get_metrics start' req (Inr (metrics env' reg1)) now' reg1 = Some (res2, reg2)
         \<and> res_statusCode res1 = 200
         \<and> res_body res1 = Snapshot (metrics env reg)
         \<and> res_body res2 = Snapshot (metrics env' reg1)
         \<and> res_body res2 \<noteq> res_body res1)"
proof -
  have grows: "counter_value (httpRequestsTotal (on_finish s req c n r))
                 \<lparr>http_method = ''GET'', route = ''/metrics'', status_code = toString c\<rparr>
               = counter_value (httpRequestsTotal r)
                 \<lparr>http_method = ''GET'', route = ''/metrics'', status_code = toString c\<rparr> + 1"
    for s c n r
    using assms
    by (simp add: on_finish_finish finish_requests labels_of_def route_of_def counter_value_inc)
  have observed: "total_count (hist_value (httpRequestDurationMicroseconds (on_finish s req c n r))
                 \<lparr>http_method = ''GET'', route = ''/metrics'', status_code = toString c\<rparr>)
               = total_count (hist_value (httpRequestDurationMicroseconds r)
                 \<lparr>http_method = ''GET'', route = ''/metrics'', status_code = toString c\<rparr>) + 1"
    for s c n r
    using assms
    by (simp add: on_finish_finish finish_histogram labels_of_def route_of_def hist_value_observe
          observe_value_def)
  have differs: "metrics env' (on_finish s req c n r) \<noteq> metrics env r" for s c n r env env'
  proof
    assume "metrics env' (on_finish s req c n r) = metrics env r"
    then have "httpRequestsTotal (on_finish s req c n r) = httpRequestsTotal r"
      by (rule metrics_eq_requests)
    with grows [of s c n r] show False by simp
  qed
  have answered: "reg' = on_finish start req (res_statusCode res) now reg"
    if "get_metrics start req outcome now reg = Some (res, reg')" for res reg'
    using that by (auto simp: get_metrics_def split: sum.splits)
  have ok: "get_metrics s req (Inr snap) n r
      = Some (\<lparr>res_statusCode = 200, res_contentType = Some (contentType r),
               res_body = Snapshot snap\<rparr>, on_finish s req 200 n r)" for s snap n r
    by (simp add: get_metrics_def metrics_handler_def new_response_def)
  have two: "\<exists>res1 reg1 res2 reg2.
         get_metrics start req (Inr (metrics env reg)) now reg = Some (res1, reg1)
         \<and> get_metrics start' req (Inr (metrics env' reg1)) now' reg1 = Some (res2, reg2)
         \<and> res_statusCode res1 = 200
         \<and> res_body res1 = Snapshot (metrics env reg)
         \<and> res_body res2 = Snapshot (metrics env' reg1)
         \<and> res_body res2 \<noteq> res_body res1" for env env'
    using differs [of env' start 200 now reg env] by (simp add: ok)
  from grows observed differs answered two show ?thesis
    unfolding Let_def by blast
qed

text \<open>Two scrapes of the fresh registry.\<close>

theorem scrape_is_instrumented_witness:
  "req_method (get_request ''/metrics'') = ''GET''
   \<and> req_route (get_request ''/metrics'') = Some ''/metrics''
   \<and> get_metrics 0 (get_request ''/metrics'') (Inr (metrics (\<lambda>name. []) (new_registry [] [])))
        3 (new_registry [] [])
     = Some (\<lparr>res_statusCode = 200, res_contentType = Some [],
              res_body = Snapshot (metrics (\<lambda>name. []) (new_registry [] []))\<rparr>,
             on_finish 0 (get_request ''/metrics'') 200 3 (new_registry [] []))
   \<and> counter_value
        (httpRequestsTotal (on_finish 0 (get_request ''/metrics'') 200 3 (new_registry [] [])))
        \<lparr>http_method = ''GET'', route = ''/metrics'', status_code = ''200''\<rparr> = 1
   \<and> metrics (\<lambda>name. []) (on_finish 0 (get_request ''/metrics'') 200 3 (new_registry [] []))
     \<noteq> metrics (\<lambda>name. []) (new_registry [] [])"
proof -
  have req: "req_method (get_request ''/metrics'') = ''GET''"
    "req_route (get_request ''/metrics'') = Some ''/metrics''"
    by (simp_all add: get_request_def)
  have answer: "get_metrics 0 (get_request ''/metrics'')
        (Inr (metrics (\<lambda>name. []) (new_registry [] []))) 3 (new_registry [] [])
     = Some (\<lparr>res_statusCode = 200, res_contentType = Some [],
              res_body = Snapshot (metrics (\<lambda>name. []) (new_registry [] []))\<rparr>,
             on_finish 0 (get_request ''/metrics'') 200 3 (new_registry [] []))"
    by (simp add: get_metrics_def metrics_handler_def new_response_def new_registry_def)
  have zero: "counter_value (httpRequestsTotal (new_registry [] []))
        \<lparr>http_method = ''GET'', route = ''/metrics'', status_code = ''200''\<rparr> = 0"
    by (simp add: new_registry_def counter_value_def)
  from scrape_is_instrumented [OF req, of 0 200 3 "new_registry [] []"]
  have "counter_value
        (httpRequestsTotal (on_finish 0 (get_request ''/metrics'') 200 3 (new_registry [] [])))
        \<lparr>http_method = ''GET'', route = ''/metrics'', status_code = ''200''\<rparr> = 1
      \<and> (\<forall>env env'. metrics env' (on_finish 0 (get_request ''/metrics'') 200 3
            (new_registry [] [])) \<noteq> metrics env (new_registry [] []))"
    unfolding Let_def toString_200 zero by simp
  with req answer show ?thesis by blast
qed

end
